theory Spec2Isabelle
  imports
    Main
    "HOL-Library.Char_ord"
    "HOL-Library.List_Lexorder"
    "HOL-Library.Product_Lexorder"
    "HOL-Library.AList"
    "HOL-Library.Multiset"
begin

section \<open>The tree node of \<^verbatim>\<open>src/tree/file_tree_node.py\<close>\<close>

text \<open>
  A \<^verbatim>\<open>FileTreeNode\<close> object has three attributes: \<^verbatim>\<open>name\<close>, \<^verbatim>\<open>type\<close> and
  \<^verbatim>\<open>children\<close>. The constructor checks \<^verbatim>\<open>type_str\<close> against the two literals, so
  the stored \<^verbatim>\<open>type\<close> is always a Python \<^verbatim>\<open>str\<close>. The \<^verbatim>\<open>name\<close> is stored
  unchecked: it is a \<^verbatim>\<open>str\<close> for nodes built by hand or by the scanner (as the
  annotation \<^verbatim>\<open>name: str\<close> says), but whatever value the document holds for nodes
  decoded from JSON. The type parameter \<open>'n\<close> is the type of that value: \<open>string\<close> for
  the scanner, the materializer and the renderer, \<open>json\<close> for the codec.
\<close>

datatype 'n FileTreeNode =
  FileTreeNode (name: 'n) (type: string) (children: "'n FileTreeNode list")

text \<open>A value decoded by \<^verbatim>\<open>json.load\<close>; a \<^verbatim>\<open>dict\<close> is the list of its items.\<close>

datatype json =
    JNull
  | JBool bool
  | JNum int
  | JStr string
  | JArr "json list"
  | JObj "(string \<times> json) list"

text \<open>The exceptions raised by the code and by the host calls it makes.\<close>

datatype error =
    ValueError string
  | KeyError string
  | TypeError
  | FileExistsError
  | FileNotFoundError
  | IsADirectoryError
  | NotADirectoryError

subsection \<open>Construction: \<^verbatim>\<open>FileTreeNode.__init__\<close> without \<^verbatim>\<open>file_path\<close>\<close>

definition type_error_msg :: string where
  "type_error_msg = ''Type must be 'file' or 'directory'' @ [CHR 0x27]"

definition children_error_msg :: string where
  "children_error_msg = ''Files must not contain children''"

text \<open>
  The branch of the constructor taken when \<^verbatim>\<open>file_path\<close> is not given.
  \<^verbatim>\<open>type_str not in ["file", "directory"]\<close> compares with \<^verbatim>\<open>==\<close>, so a value
  that is not a \<^verbatim>\<open>str\<close> is rejected like any other; \<^verbatim>\<open>children\<close> is
  \<^verbatim>\<open>None\<close> or a list.
\<close>

definition FileTreeNode_init ::
  "'n \<Rightarrow> json \<Rightarrow> 'n FileTreeNode list option \<Rightarrow> error + 'n FileTreeNode" where
  "FileTreeNode_init name_arg type_str children_arg =
     (case type_str of
        JStr t \<Rightarrow>
          if t \<notin> set [''file'', ''directory''] then Inl (ValueError type_error_msg)
          else if t = ''file'' \<and> children_arg \<noteq> None then Inl (ValueError children_error_msg)
          else Inr (FileTreeNode name_arg t
                 (case children_arg of None \<Rightarrow> [] | Some cs \<Rightarrow> cs))
      | _ \<Rightarrow> Inl (ValueError type_error_msg))"

subsection \<open>The codec: \<^verbatim>\<open>node_to_dict\<close> and \<^verbatim>\<open>dict_to_node\<close>\<close>

fun node_to_dict :: "json FileTreeNode \<Rightarrow> json" where
  "node_to_dict (FileTreeNode n t cs) =
     JObj [(''name'', n), (''type'', JStr t),
           (''children'', if cs \<noteq> [] then JArr (map node_to_dict cs) else JNull)]"

text \<open>Python's truth value of a decoded JSON value.\<close>

fun truthy :: "json \<Rightarrow> bool" where
  "truthy JNull = False"
| "truthy (JBool b) = b"
| "truthy (JNum i) = (i \<noteq> 0)"
| "truthy (JStr s) = (s \<noteq> [])"
| "truthy (JArr xs) = (xs \<noteq> [])"
| "truthy (JObj kvs) = (kvs \<noteq> [])"

text \<open>A list comprehension over calls that may raise: the first exception ends it.\<close>

fun collect :: "('e + 'a) list \<Rightarrow> 'e + 'a list" where
  "collect [] = Inr []"
| "collect (r # rs) =
     (case r of
        Inl e \<Rightarrow> Inl e
      | Inr v \<Rightarrow> (case collect rs of Inl e \<Rightarrow> Inl e | Inr vs \<Rightarrow> Inr (v # vs)))"

text \<open>
  \<^verbatim>\<open>dict_to_node\<close>. Subscripting anything but a \<^verbatim>\<open>dict\<close> with a string raises
  \<^verbatim>\<open>TypeError\<close>; a missing key raises \<^verbatim>\<open>KeyError\<close>. A truthy
  \<^verbatim>\<open>children\<close> value is iterated: a list gives its elements; a non-empty
  \<^verbatim>\<open>str\<close> or \<^verbatim>\<open>dict\<close> gives strings, on which the recursive call raises
  \<^verbatim>\<open>TypeError\<close> at once; a number or \<^verbatim>\<open>True\<close> is not iterable, again a
  \<^verbatim>\<open>TypeError\<close>.
\<close>

function dict_to_node :: "json \<Rightarrow> error + json FileTreeNode" where
  "dict_to_node (JObj node_dict) =
     (case map_of node_dict ''name'' of
        None \<Rightarrow> Inl (KeyError ''name'')
      | Some name_val \<Rightarrow>
     (case map_of node_dict ''type'' of
        None \<Rightarrow> Inl (KeyError ''type'')
      | Some type_str \<Rightarrow>
     (case map_of node_dict ''children'' of
        None \<Rightarrow> Inl (KeyError ''children'')
      | Some cs \<Rightarrow>
     (case (if truthy cs
            then (case cs of
                    JArr xs \<Rightarrow>
                      (case collect (map dict_to_node xs) of
                         Inl e \<Rightarrow> Inl e
                       | Inr ns \<Rightarrow> Inr (Some ns))
                  | _ \<Rightarrow> Inl TypeError)
            else Inr None) of
        Inl e \<Rightarrow> Inl e
      | Inr children_arg \<Rightarrow> FileTreeNode_init name_val type_str children_arg))))"
| "dict_to_node JNull = Inl TypeError"
| "dict_to_node (JBool b) = Inl TypeError"
| "dict_to_node (JNum i) = Inl TypeError"
| "dict_to_node (JStr s) = Inl TypeError"
| "dict_to_node (JArr xs) = Inl TypeError"
  by pat_completeness auto
termination
proof (relation "measure size")
  show "wf (measure size)" by simp
next
  fix node_dict :: "(string \<times> json) list" and cs xs x
  assume lookup: "map_of node_dict ''children'' = Some cs"
    and arr: "cs = JArr xs" and elem: "x \<in> set xs"
  from elem have "size x \<le> size_list size xs"
    by (induction xs) auto
  with arr have "size x < size cs" by simp
  moreover have "map_of kvs k = Some v \<Longrightarrow>
      size v < Suc (size_list (size_prod (\<lambda>_. 0) size) kvs)"
    for kvs :: "(string \<times> json) list" and k v
    by (induction kvs) (auto split: if_splits)
  from this[OF lookup] have "size cs < size (JObj node_dict)" by simp
  ultimately show "(x, JObj node_dict) \<in> measure size" by simp
qed

definition deserialize :: "json \<Rightarrow> error + json FileTreeNode" where
  "deserialize data = dict_to_node data"

text \<open>
  A valid tree: every node is a file or a directory, and a file has no children.
\<close>

fun valid :: "'n FileTreeNode \<Rightarrow> bool" where
  "valid (FileTreeNode n t cs) =
     ((t = ''file'' \<or> t = ''directory'') \<and> (t = ''file'' \<longrightarrow> cs = []) \<and> list_all valid cs)"

text \<open>
  A document with a defect: a node object, the document itself or one reached through
  \<^verbatim>\<open>children\<close> arrays, that lacks one of the three keys or whose \<^verbatim>\<open>type\<close>
  is neither literal.
\<close>

inductive malformed :: "json \<Rightarrow> bool" where
  missing_key:
    "k \<in> set [''name'', ''type'', ''children''] \<Longrightarrow> map_of node_dict k = None \<Longrightarrow>
     malformed (JObj node_dict)"
| bad_type:
    "map_of node_dict ''type'' = Some v \<Longrightarrow> v \<noteq> JStr ''file'' \<Longrightarrow> v \<noteq> JStr ''directory'' \<Longrightarrow>
     malformed (JObj node_dict)"
| nested:
    "map_of node_dict ''children'' = Some (JArr xs) \<Longrightarrow> x \<in> set xs \<Longrightarrow> malformed x \<Longrightarrow>
     malformed (JObj node_dict)"

code_pred malformed .

subsection \<open>The renderer: \<^verbatim>\<open>print_tree\<close>\<close>

text \<open>
  The string literals of the renderer, byte for byte as they stand in the source file
  (UTF-8). A name is the UTF-8 byte string of the Python \<^verbatim>\<open>str\<close>; Python compares
  strings by code point, which is the lexicographic order of their UTF-8 bytes.
\<close>

definition connector_last :: string where
  "connector_last = ''  '' @ [CHR 0xC3, CHR 0xA2, CHR 0xE2, CHR 0x80, CHR 0x9D, CHR 0xE2, CHR 0x80,
     CHR 0x9D, CHR 0xC3, CHR 0xA2, CHR 0xE2, CHR 0x80, CHR 0x9D, CHR 0xE2, CHR 0x82, CHR 0xAC]"

definition connector_mid :: string where
  "connector_mid = ''  '' @ [CHR 0xC3, CHR 0xA2, CHR 0xE2, CHR 0x80, CHR 0x9D, CHR 0xC5, CHR 0x93,
     CHR 0xC3, CHR 0xA2, CHR 0xE2, CHR 0x80, CHR 0x9D, CHR 0xE2, CHR 0x82, CHR 0xAC]"

definition icon_file :: string where
  "icon_file = [CHR 0xC4, CHR 0x9F, CHR 0xC5, CHR 0xB8, CHR 0xE2, CHR 0x80, CHR 0x9C,
     CHR 0xE2, CHR 0x80, CHR 0x9E]"

definition icon_directory :: string where
  "icon_directory = [CHR 0xC4, CHR 0x9F, CHR 0xC5, CHR 0xB8, CHR 0xE2, CHR 0x80, CHR 0x9C]"

definition prefix_bar :: string where
  "prefix_bar = ''  '' @ [CHR 0xC3, CHR 0xA2, CHR 0xE2, CHR 0x80, CHR 0x9D, CHR 0xE2, CHR 0x80,
     CHR 0x9A]"

definition startswith :: "string \<Rightarrow> string \<Rightarrow> bool" where
  "startswith s p = (take (length p) s = p)"

text \<open>
  The key of \<^verbatim>\<open>sorted\<close>: \<^verbatim>\<open>lambda x: (x.type != "directory", x.name.lower())\<close>.
  \<^verbatim>\<open>str.lower\<close> is a built-in of the host, with the case mapping of all of Unicode; it
  is the parameter \<open>str_lower\<close>, so what is proved holds for Python's function whatever it
  does to a name.
\<close>

definition sort_key_of :: "(string \<Rightarrow> string) \<Rightarrow> string FileTreeNode \<Rightarrow> bool \<times> string" where
  "sort_key_of str_lower x = (type x \<noteq> ''directory'', str_lower (name x))"

text \<open>
  On a string of ASCII characters \<^verbatim>\<open>str.lower\<close> maps \<^verbatim>\<open>A\<close> to \<^verbatim>\<open>Z\<close> to
  \<^verbatim>\<open>a\<close> to \<^verbatim>\<open>z\<close> and leaves the rest. \<open>ascii_lower\<close> is that function; it
  stands for \<^verbatim>\<open>str.lower\<close> only where every name is \<open>is_ascii\<close>, in the examples
  that are evaluated.
\<close>

definition is_ascii :: "string \<Rightarrow> bool" where
  "is_ascii s = list_all (\<lambda>c. of_char c < (128::nat)) s"

definition ascii_lower_char :: "char \<Rightarrow> char" where
  "ascii_lower_char c =
     (if CHR ''A'' \<le> c \<and> c \<le> CHR ''Z'' then char_of (of_char c + (32::nat)) else c)"

definition ascii_lower :: "string \<Rightarrow> string" where
  "ascii_lower s = map ascii_lower_char s"

text \<open>
  \<^verbatim>\<open>print_tree\<close> returns the lines it prints, in order, and the node as the call
  leaves it. Python's \<^verbatim>\<open>sorted\<close> builds a new list of the same objects and is stable,
  as \<^const>\<open>sort_key\<close> is; tuples and strings compare lexicographically,
  \<^verbatim>\<open>False < True\<close>. Each child is carried with its position in
  \<^verbatim>\<open>self.children\<close>, which is its identity: after the loop the child at a position
  is the child as its own call left it, and \<^verbatim>\<open>self.children\<close> is touched by nothing
  else.
\<close>

function print_tree ::
  "(string \<Rightarrow> string) \<Rightarrow> string FileTreeNode \<Rightarrow> int \<Rightarrow> bool \<Rightarrow> bool \<Rightarrow> string \<Rightarrow>
   string list \<times> string FileTreeNode" where
  "print_tree str_lower (FileTreeNode n t cs) indent print_hidden is_last_child prefix =
     (if \<not> print_hidden \<and> startswith n ''.'' then ([], FileTreeNode n t cs)
      else
        let connector = (if is_last_child then connector_last else connector_mid) in
        if t = ''file'' then ([prefix @ connector @ icon_file @ '' '' @ n], FileTreeNode n t cs)
        else if t = ''directory'' then
          (let new_prefix = prefix @ (if is_last_child then ''   '' else prefix_bar);
               sorted_children =
                 sort_key (\<lambda>(pos, x). sort_key_of str_lower x) (enumerate 0 cs);
               calls = map (\<lambda>(i, (pos, child)).
                   (pos, print_tree str_lower child (indent + 1) print_hidden
                      (int i = int (length sorted_children) - 1) new_prefix))
                 (enumerate 0 sorted_children)
           in ((prefix @ connector @ icon_directory @ '' '' @ n) #
                 concat (map (\<lambda>(pos, printed, child'). printed) calls),
               FileTreeNode n t
                 (fold (\<lambda>(pos, printed, child') children. children[pos := child']) calls cs)))
        else ([], FileTreeNode n t cs))"
  by pat_completeness auto
termination
proof (relation "measure (\<lambda>(f, node, _). size node)")
  show "wf (measure (\<lambda>(f :: string \<Rightarrow> string, node :: string FileTreeNode,
      _ :: int \<times> bool \<times> bool \<times> string). size node))"
    by simp
next
  fix str_lower :: "string \<Rightarrow> string" and n t :: string and cs :: "string FileTreeNode list"
    and indent :: int and print_hidden is_last_child :: bool and prefix new_prefix :: string
    and sorted_children :: "(nat \<times> string FileTreeNode) list"
    and entry :: "nat \<times> nat \<times> string FileTreeNode"
    and i pos :: nat and tagged :: "nat \<times> string FileTreeNode" and child :: "string FileTreeNode"
  assume sorted_def:
      "sorted_children = sort_key (\<lambda>(pos, x). sort_key_of str_lower x) (enumerate 0 cs)"
    and elem: "entry \<in> set (enumerate 0 sorted_children)" "(i, tagged) = entry"
      "(pos, child) = tagged"
  from elem have "tagged \<in> snd ` set (enumerate 0 sorted_children)"
    by (metis imageI snd_conv)
  then have "tagged \<in> set sorted_children"
    by (simp flip: set_map)
  with sorted_def have "tagged \<in> set (enumerate 0 cs)"
    by simp
  with elem(3) have "child \<in> set cs"
    by (auto simp: in_set_enumerate_eq)
  then have "size child \<le> size_list size cs"
    by (induction cs) auto
  then show "((str_lower, child, indent + 1, print_hidden,
               int i = int (length sorted_children) - 1, new_prefix),
              str_lower, FileTreeNode n t cs, indent, print_hidden, is_last_child, prefix)
             \<in> measure (\<lambda>(f, node, _). size node)"
    by simp
qed


declare print_tree.simps [simp del]

section \<open>The host file system\<close>

text \<open>
  The scanner, the persistence wrapper and the materializer reach the file system through
  \<^verbatim>\<open>os.path.exists\<close>, \<^verbatim>\<open>os.path.isdir\<close>, \<^verbatim>\<open>os.path.isfile\<close>,
  \<^verbatim>\<open>os.listdir\<close>, \<^verbatim>\<open>os.makedirs\<close> and \<^verbatim>\<open>open(path, "w")\<close>. The model
  of the host is a finite tree of regular files (with their text) and directories (with
  their entries in listing order); a path is the list of its segments from the root of
  that tree, and \<^verbatim>\<open>os.path.join(p, s)\<close> appends the single segment \<open>s\<close>.
  This is what the host does for the names of the data model: one path segment, not
  empty, not \<^verbatim>\<open>.\<close> or \<^verbatim>\<open>..\<close>, without a separator. Other names, symbolic
  links and special files are outside the model.
  \<^verbatim>\<open>json.dumps\<close> belongs to the host as well: \<open>Dumps j\<close> stands for the text
  \<^verbatim>\<open>json.dumps(j, ensure_ascii=False, indent=4, sort_keys=True)\<close>.
\<close>

datatype file_text = Text string | Dumps json

datatype fsnode = RegFile file_text | Dir "(string \<times> fsnode) list"

type_synonym path = "string list"

fun fs_lookup :: "fsnode \<Rightarrow> path \<Rightarrow> fsnode option" where
  "fs_lookup e [] = Some e"
| "fs_lookup (Dir entries) (s # p) =
     (case map_of entries s of None \<Rightarrow> None | Some e \<Rightarrow> fs_lookup e p)"
| "fs_lookup (RegFile text) (s # p) = None"

definition os_path_join :: "path \<Rightarrow> string \<Rightarrow> path" where
  "os_path_join p s = p @ [s]"

definition os_path_exists :: "fsnode \<Rightarrow> path \<Rightarrow> bool" where
  "os_path_exists root p = (fs_lookup root p \<noteq> None)"

definition os_path_isdir :: "fsnode \<Rightarrow> path \<Rightarrow> bool" where
  "os_path_isdir root p = (case fs_lookup root p of Some (Dir entries) \<Rightarrow> True | _ \<Rightarrow> False)"

definition os_path_isfile :: "fsnode \<Rightarrow> path \<Rightarrow> bool" where
  "os_path_isfile root p = (case fs_lookup root p of Some (RegFile text) \<Rightarrow> True | _ \<Rightarrow> False)"

definition os_listdir :: "fsnode \<Rightarrow> path \<Rightarrow> error + string list" where
  "os_listdir root p =
     (case fs_lookup root p of
        Some (Dir entries) \<Rightarrow> Inr (map fst entries)
      | Some (RegFile text) \<Rightarrow> Inl NotADirectoryError
      | None \<Rightarrow> Inl FileNotFoundError)"

fun new_dirs :: "path \<Rightarrow> fsnode" where
  "new_dirs [] = Dir []"
| "new_dirs (s # p) = Dir [(s, new_dirs p)]"

text \<open>
  \<^verbatim>\<open>os.makedirs(path)\<close> with the default \<^verbatim>\<open>exist_ok=False\<close>: it creates the
  missing directories along the path and raises \<^verbatim>\<open>FileExistsError\<close> when the path
  itself exists already.
\<close>

fun os_makedirs :: "fsnode \<Rightarrow> path \<Rightarrow> error + fsnode" where
  "os_makedirs e [] = Inl FileExistsError"
| "os_makedirs (RegFile text) (s # p) = Inl NotADirectoryError"
| "os_makedirs (Dir entries) (s # p) =
     (case map_of entries s of
        None \<Rightarrow> Inr (Dir (entries @ [(s, new_dirs p)]))
      | Some e \<Rightarrow>
          (case os_makedirs e p of
             Inl err \<Rightarrow> Inl err
           | Inr e' \<Rightarrow> Inr (Dir (AList.update s e' entries))))"

text \<open>
  \<^verbatim>\<open>with open(path, "w") as file: file.write(text)\<close>: the file is created in an
  existing directory or replaced; opening a directory for writing raises
  \<^verbatim>\<open>IsADirectoryError\<close>.
\<close>

fun write_text :: "fsnode \<Rightarrow> path \<Rightarrow> file_text \<Rightarrow> error + fsnode" where
  "write_text (RegFile old) [] text = Inr (RegFile text)"
| "write_text (Dir entries) [] text = Inl IsADirectoryError"
| "write_text (RegFile old) (s # p) text = Inl NotADirectoryError"
| "write_text (Dir entries) (s # p) text =
     (case map_of entries s of
        None \<Rightarrow>
          if p = [] then Inr (Dir (entries @ [(s, RegFile text)])) else Inl FileNotFoundError
      | Some e \<Rightarrow>
          (case write_text e p text of
             Inl err \<Rightarrow> Inl err
           | Inr e' \<Rightarrow> Inr (Dir (AList.update s e' entries))))"

text \<open>What a call can change: the file system and the lines printed so far.\<close>

record world =
  fs :: fsnode
  cwd :: path
  stdout :: "string list"

definition path_str :: "path \<Rightarrow> string" where
  "path_str p = concat (map (\<lambda>s. CHR ''/'' # s) p)"

definition quoted :: "string \<Rightarrow> string" where
  "quoted s = CHR 0x27 # s @ [CHR 0x27]"

subsection \<open>The scanner: \<^verbatim>\<open>build_from_directory\<close>\<close>

definition not_a_directory_msg :: "path \<Rightarrow> string" where
  "not_a_directory_msg p = ''Path '' @ quoted (path_str p) @ '' does not point to a directory.''"

text \<open>
  The method appends to \<^verbatim>\<open>self.children\<close> and scans every child in place; the model
  returns the node after the call. The recursive call passes no \<^verbatim>\<open>add_hidden\<close>, so
  the default \<^verbatim>\<open>False\<close> applies there.
\<close>

function build_from_directory ::
  "fsnode \<Rightarrow> string FileTreeNode \<Rightarrow> path \<Rightarrow> bool \<Rightarrow> error + string FileTreeNode" where
  "build_from_directory root (FileTreeNode n t cs) dir_path add_hidden =
     (if \<not> os_path_isdir root dir_path then Inl (ValueError (not_a_directory_msg dir_path))
      else
        (case os_listdir root dir_path of
           Inl e \<Rightarrow> Inl e
         | Inr listed \<Rightarrow>
        (let listed_items =
               (if \<not> add_hidden then filter (\<lambda>item. \<not> startswith item ''.'') listed
                else listed);
             dirs = filter (\<lambda>item. os_path_isdir root (os_path_join dir_path item)) listed_items
         in
        (case collect (map (\<lambda>dir. FileTreeNode_init dir (JStr ''directory'') None) dirs) of
           Inl e \<Rightarrow> Inl e
         | Inr dir_nodes \<Rightarrow>
        (case collect (map (\<lambda>child.
                  build_from_directory root child (os_path_join dir_path (name child)) False)
                (cs @ dir_nodes)) of
           Inl e \<Rightarrow> Inl e
         | Inr scanned \<Rightarrow>
        (let files =
               filter (\<lambda>item. os_path_isfile root (os_path_join dir_path item)) listed_items
         in
        (case collect (map (\<lambda>file. FileTreeNode_init file (JStr ''file'') None) files) of
           Inl e \<Rightarrow> Inl e
         | Inr file_nodes \<Rightarrow> Inr (FileTreeNode n t (scanned @ file_nodes)))))))))"
  by pat_completeness auto
termination
proof (relation "measure (\<lambda>(root, node, p, h).
         case fs_lookup root p of None \<Rightarrow> 0 | Some e \<Rightarrow> Suc (size e))")
  show "wf (measure (\<lambda>(root, node :: string FileTreeNode, p, h :: bool).
         case fs_lookup root p of None \<Rightarrow> 0 | Some e \<Rightarrow> Suc (size e)))"
    by simp
next
  fix root :: fsnode and n t :: string and cs :: "string FileTreeNode list"
    and dir_path :: path and add_hidden :: bool and child :: "string FileTreeNode"
  assume isdir: "\<not> \<not> os_path_isdir root dir_path"
  have lookup_append: "fs_lookup e (p @ q) =
      (case fs_lookup e p of None \<Rightarrow> None | Some e' \<Rightarrow> fs_lookup e' q)" for e p q
    by (induction e p rule: fs_lookup.induct) (auto split: option.splits)
  have item_size: "map_of entries s = Some e \<Longrightarrow>
      size e < Suc (size_list (size_prod (\<lambda>_. 0) size) entries)"
    for entries :: "(string \<times> fsnode) list" and s e
    by (induction entries) (auto split: if_splits)
  from isdir obtain entries where here: "fs_lookup root dir_path = Some (Dir entries)"
    by (auto simp: os_path_isdir_def split: option.splits fsnode.splits)
  show "((root, child, os_path_join dir_path (name child), False),
         root, FileTreeNode n t cs, dir_path, add_hidden)
        \<in> measure (\<lambda>(root, node, p, h).
             case fs_lookup root p of None \<Rightarrow> 0 | Some e \<Rightarrow> Suc (size e))"
    using here item_size[of entries "name child"]
    by (auto simp: os_path_join_def lookup_append split: option.splits)
qed

declare build_from_directory.simps [simp del]

subsection \<open>The persistence wrapper: \<^verbatim>\<open>save_to_file\<close>\<close>

definition serialize :: "json FileTreeNode \<Rightarrow> file_text" where
  "serialize self = Dumps (node_to_dict self)"

definition already_exists_msg :: "path \<Rightarrow> string" where
  "already_exists_msg p =
     ''File '' @ quoted (path_str p) @ '' already exists. Use --overwrite to overwrite it.''"

definition saved_msg :: "path \<Rightarrow> string" where
  "saved_msg p = ''File tree saved to '' @ path_str p"

text \<open>
  The result is the exception raised, if any, and the world after the call. Names are
  byte strings of UTF-8 text, so writing the document with \<^verbatim>\<open>encoding="utf-8"\<close>
  does not fail on a name.
\<close>

definition save_to_file ::
  "json FileTreeNode \<Rightarrow> path \<Rightarrow> bool \<Rightarrow> world \<Rightarrow> error option \<times> world" where
  "save_to_file self file_path overwrite w =
     (if os_path_exists (fs w) file_path \<and> os_path_isfile (fs w) file_path \<and> \<not> overwrite
      then (None, w\<lparr>stdout := stdout w @ [already_exists_msg file_path]\<rparr>)
      else
        (case write_text (fs w) file_path (serialize self) of
           Inl e \<Rightarrow> (Some e, w)
         | Inr fs' \<Rightarrow> (None, w\<lparr>fs := fs', stdout := stdout w @ [saved_msg file_path]\<rparr>)))"

subsection \<open>The materializer: \<^verbatim>\<open>create_template_copy\<close>\<close>

definition skipping_msg :: "path \<Rightarrow> string" where
  "skipping_msg p = ''Path '' @ quoted (path_str p) @ '' already exists. Skipping creation.''"

definition template_text :: file_text where
  "template_text = Text ''This is an empty template file''"

definition unknown_type_msg :: "string \<Rightarrow> string \<Rightarrow> string" where
  "unknown_type_msg t n =
     ''Unknown type '' @ quoted t @ '' for node '' @ quoted n @
     ''. Expected 'file' or 'directory'.''"

text \<open>
  \<open>create_children\<close> is the loop \<^verbatim>\<open>for child in self.children\<close>; the call in its
  body passes no \<^verbatim>\<open>overwrite\<close>, so the default \<^verbatim>\<open>False\<close> applies there.
\<close>

fun create_template_copy ::
    "string FileTreeNode \<Rightarrow> path option \<Rightarrow> bool \<Rightarrow> world \<Rightarrow> error option \<times> world"
  and create_children ::
    "string FileTreeNode list \<Rightarrow> path \<Rightarrow> world \<Rightarrow> error option \<times> world" where
  "create_template_copy (FileTreeNode n t cs) destination_path overwrite w =
     (let destination = (case destination_path of None \<Rightarrow> cwd w | Some d \<Rightarrow> d);
          root_path = os_path_join destination n
      in
      if os_path_exists (fs w) root_path \<and> \<not> overwrite
      then (None, w\<lparr>stdout := stdout w @ [skipping_msg root_path]\<rparr>)
      else if t = ''directory'' then
        (case os_makedirs (fs w) root_path of
           Inl e \<Rightarrow> (Some e, w)
         | Inr fs' \<Rightarrow> create_children cs root_path (w\<lparr>fs := fs'\<rparr>))
      else if t = ''file'' then
        (case write_text (fs w) root_path template_text of
           Inl e \<Rightarrow> (Some e, w)
         | Inr fs' \<Rightarrow> (None, w\<lparr>fs := fs'\<rparr>))
      else (Some (ValueError (unknown_type_msg t n)), w))"
| "create_children [] root_path w = (None, w)"
| "create_children (child # rest) root_path w =
     (case create_template_copy child (Some root_path) False w of
        (Some e, w') \<Rightarrow> (Some e, w')
      | (None, w') \<Rightarrow> create_children rest root_path w')"

section \<open>Properties\<close>

subsection \<open>Helper facts about \<^const>\<open>collect\<close>\<close>

lemma collect_map_Inr:
  "(\<And>x. x \<in> set xs \<Longrightarrow> f x = Inr (g x)) \<Longrightarrow> collect (map f xs) = Inr (map g xs)"
  by (induction xs) auto

lemma collect_Inl_elem:
  "Inl e \<in> set rs \<Longrightarrow> \<exists>e'. collect rs = Inl e'"
  by (induction rs) (auto split: sum.splits)

lemma collect_map_results:
  "collect (map f xs) = Inr ys \<Longrightarrow> list_all2 (\<lambda>x y. f x = Inr y) xs ys"
proof (induction xs arbitrary: ys)
  case Nil
  then show ?case by simp
next
  case (Cons x xs)
  then show ?case
    by (cases "f x"; cases "collect (map f xs)") auto
qed

subsection \<open>Construction\<close>

text \<open>
  C7. The constructor raises \<^verbatim>\<open>ValueError\<close> whenever \<^verbatim>\<open>type_str\<close> is neither
  \<^verbatim>\<open>"file"\<close> nor \<^verbatim>\<open>"directory"\<close>, and whenever \<^verbatim>\<open>type_str\<close> is
  \<^verbatim>\<open>"file"\<close> and a list of one or more children is passed. Hence a node that was
  constructed is a file or a directory, and a file among them has no children.
\<close>

theorem FileTreeNode_init_rejects:
  "(type_str \<noteq> JStr ''file'' \<and> type_str \<noteq> JStr ''directory'' \<longrightarrow>
      FileTreeNode_init n type_str cs = Inl (ValueError type_error_msg)) \<and>
   FileTreeNode_init n (JStr ''file'') (Some (c # rest)) = Inl (ValueError children_error_msg) \<and>
   (FileTreeNode_init n type_str cs = Inr node \<longrightarrow>
      (type node = ''file'' \<or> type node = ''directory'') \<and>
      (type node = ''file'' \<longrightarrow> children node = []))"
  by (auto simp: FileTreeNode_init_def split: json.splits if_splits option.splits)

theorem FileTreeNode_init_rejects_witness:
  "JNull \<noteq> JStr ''file'' \<and> JNull \<noteq> JStr ''directory'' \<and>
   FileTreeNode_init ''a'' JNull None = Inl (ValueError type_error_msg) \<and>
   FileTreeNode_init ''a'' (JStr ''file'') (Some [FileTreeNode ''b'' ''file'' []]) =
     Inl (ValueError children_error_msg) \<and>
   FileTreeNode_init ''a'' (JStr ''file'') None = Inr (FileTreeNode ''a'' ''file'' []) \<and>
   type (FileTreeNode ''a'' ''file'' []) = ''file'' \<and>
   children (FileTreeNode ''a'' ''file'' []) = []"
  using FileTreeNode_init_rejects[of JNull "''a''" None "FileTreeNode ''b'' ''file'' []" "[]"
      undefined]
    FileTreeNode_init_rejects[of "JStr ''file''" "''a''" None undefined undefined
      "FileTreeNode ''a'' ''file'' []"]
  by (simp add: FileTreeNode_init_def)

subsection \<open>The codec\<close>

text \<open>
  C1. Round trip: decoding the dictionary that \<^verbatim>\<open>node_to_dict\<close> builds from a valid
  tree gives back that tree, with the same names, types and children in the same order
  at every node.
\<close>

theorem roundtrip: "valid t \<Longrightarrow> deserialize (node_to_dict t) = Inr t"
proof (induction t)
  case (FileTreeNode n ty cs)
  have "collect (map dict_to_node (map node_to_dict cs)) = Inr (map id cs)"
    unfolding map_map
  proof (rule collect_map_Inr)
    fix c assume "c \<in> set cs"
    with FileTreeNode show "(dict_to_node \<circ> node_to_dict) c = Inr (id c)"
      by (auto simp: deserialize_def list_all_iff)
  qed
  with FileTreeNode.prems show ?case
    by (cases cs) (auto simp: deserialize_def FileTreeNode_init_def)
qed

theorem roundtrip_witness:
  "valid (FileTreeNode (JStr ''r'') ''directory''
       [FileTreeNode (JStr ''d'') ''directory'' [], FileTreeNode (JStr ''a.txt'') ''file'' []]) \<and>
   deserialize (node_to_dict (FileTreeNode (JStr ''r'') ''directory''
       [FileTreeNode (JStr ''d'') ''directory'' [], FileTreeNode (JStr ''a.txt'') ''file'' []])) =
   Inr (FileTreeNode (JStr ''r'') ''directory''
       [FileTreeNode (JStr ''d'') ''directory'' [], FileTreeNode (JStr ''a.txt'') ''file'' []])"
  using roundtrip[of "FileTreeNode (JStr ''r'') ''directory''
       [FileTreeNode (JStr ''d'') ''directory'' [], FileTreeNode (JStr ''a.txt'') ''file'' []]"]
  by simp

lemma init_bad_type:
  "v \<noteq> JStr ''file'' \<Longrightarrow> v \<noteq> JStr ''directory'' \<Longrightarrow>
   FileTreeNode_init n v c = Inl (ValueError type_error_msg)"
  by (cases v) (auto simp: FileTreeNode_init_def)

lemma dict_to_node_Inr:
  assumes "dict_to_node (JObj node_dict) = Inr node"
  obtains name_val type_str cs children_arg where
    "map_of node_dict ''name'' = Some name_val"
    "map_of node_dict ''type'' = Some type_str"
    "map_of node_dict ''children'' = Some cs"
    "FileTreeNode_init name_val type_str children_arg = Inr node"
    "(\<not> truthy cs \<and> children_arg = None) \<or>
     (\<exists>xs ns. cs = JArr xs \<and> xs \<noteq> [] \<and> collect (map dict_to_node xs) = Inr ns \<and>
        children_arg = Some ns)"
proof (cases "map_of node_dict ''name''")
  case None
  with assms show ?thesis by simp
next
  case name: (Some name_val)
  show ?thesis
  proof (cases "map_of node_dict ''type''")
    case None
    with assms name show ?thesis by simp
  next
    case ty: (Some type_str)
    show ?thesis
    proof (cases "map_of node_dict ''children''")
      case None
      with assms name ty show ?thesis by simp
    next
      case ch: (Some cs)
      show ?thesis
      proof (cases "truthy cs")
        case False
        with assms name ty ch that[of name_val type_str cs None] show ?thesis
          by simp
      next
        case True
        show ?thesis
        proof (cases cs)
          case (JArr xs)
          with True have ne: "xs \<noteq> []" by simp
          show ?thesis
          proof (cases "collect (map dict_to_node xs)")
            case (Inl e)
            with assms name ty ch JArr ne show ?thesis by simp
          next
            case (Inr ns)
            with assms name ty ch JArr ne that[of name_val type_str cs "Some ns"]
            show ?thesis by simp
          qed
        qed (use assms name ty ch True in simp_all)
      qed
    qed
  qed
qed


text \<open>
  Every tree that \<^verbatim>\<open>dict_to_node\<close> returns is valid. With \<^verbatim>\<open>file_path\<close> the
  constructor copies the attributes of such a tree, so the nodes it yields satisfy the
  invariant as well.
\<close>

lemma dict_to_node_valid: "dict_to_node j = Inr node \<Longrightarrow> valid node"
proof (induction j arbitrary: node rule: dict_to_node.induct)
  case (1 node_dict)
  from "1.prems" obtain name_val type_str cs children_arg where
    lookups: "map_of node_dict ''name'' = Some name_val"
      "map_of node_dict ''type'' = Some type_str"
      "map_of node_dict ''children'' = Some cs" and
    init: "FileTreeNode_init name_val type_str children_arg = Inr node" and
    arg: "(\<not> truthy cs \<and> children_arg = None) \<or>
      (\<exists>xs ns. cs = JArr xs \<and> xs \<noteq> [] \<and> collect (map dict_to_node xs) = Inr ns \<and>
         children_arg = Some ns)"
    by (rule dict_to_node_Inr)
  have decoded: "list_all valid (case children_arg of None \<Rightarrow> [] | Some ns \<Rightarrow> ns)"
  proof (cases children_arg)
    case None
    then show ?thesis by simp
  next
    case (Some ns)
    with arg obtain xs where xs: "cs = JArr xs" "xs \<noteq> []"
      "collect (map dict_to_node xs) = Inr ns"
      by auto
    from xs(1,2) have nonempty: "truthy cs"
      by simp
    from collect_map_results[OF xs(3)]
    have "list_all2 (\<lambda>x y. valid y) xs ns"
    proof (rule list.rel_mono_strong)
      fix x y
      assume "x \<in> set xs" "y \<in> set ns" "dict_to_node x = Inr y"
      from this(1,3) show "valid y"
        by (rule "1.IH"[OF lookups nonempty xs(1)])
    qed
    then have "list_all valid ns"
      by (induction xs ns rule: list_all2_induct) auto
    with Some show ?thesis by simp
  qed
  from init decoded show ?case
    by (cases type_str)
      (auto simp: FileTreeNode_init_def split: if_splits)
qed simp_all

lemma malformed_fails: "malformed j \<Longrightarrow> \<exists>e. dict_to_node j = Inl e"
proof (induction rule: malformed.induct)
  case (missing_key k node_dict)
  show ?case
  proof (cases "dict_to_node (JObj node_dict)")
    case (Inl e)
    then show ?thesis by blast
  next
    case (Inr node)
    then obtain name_val type_str cs where
      "map_of node_dict ''name'' = Some name_val"
      "map_of node_dict ''type'' = Some type_str"
      "map_of node_dict ''children'' = Some cs"
      by (rule dict_to_node_Inr)
    with missing_key have False by auto
    then show ?thesis ..
  qed
next
  case (bad_type node_dict v)
  show ?case
  proof (cases "dict_to_node (JObj node_dict)")
    case (Inl e)
    then show ?thesis by blast
  next
    case (Inr node)
    then obtain name_val type_str children_arg where
      "map_of node_dict ''type'' = Some type_str"
      "FileTreeNode_init name_val type_str children_arg = Inr node"
      by (rule dict_to_node_Inr)
    with bad_type init_bad_type[of v name_val children_arg] have False by simp
    then show ?thesis ..
  qed
next
  case (nested node_dict xs x)
  from nested.IH obtain e where "dict_to_node x = Inl e"
    by blast
  with nested.hyps(2) have "Inl e \<in> dict_to_node ` set xs"
    by (metis imageI)
  then obtain e' where fails: "collect (map dict_to_node xs) = Inl e'"
    using collect_Inl_elem[of e "map dict_to_node xs"] by auto
  from nested.hyps(2) have ne: "xs \<noteq> []"
    by auto
  show ?case
  proof (cases "dict_to_node (JObj node_dict)")
    case (Inl e)
    then show ?thesis by blast
  next
    case (Inr node)
    then obtain cs children_arg where
      "map_of node_dict ''children'' = Some cs"
      "(\<not> truthy cs \<and> children_arg = None) \<or>
       (\<exists>ys ns. cs = JArr ys \<and> ys \<noteq> [] \<and> collect (map dict_to_node ys) = Inr ns \<and>
          children_arg = Some ns)"
      by (rule dict_to_node_Inr)
    with nested.hyps(1) fails ne have False by auto
    then show ?thesis ..
  qed
qed


text \<open>
  C8. A document in which some node object, at any depth, lacks one of the keys
  \<^verbatim>\<open>name\<close>, \<^verbatim>\<open>type\<close>, \<^verbatim>\<open>children\<close>, or has a \<^verbatim>\<open>type\<close> other than the
  two literals, is never decoded to a node: \<^verbatim>\<open>dict_to_node\<close> raises. Decoding
  \<^verbatim>\<open>{"name": "x"}\<close> raises \<^verbatim>\<open>KeyError('type')\<close>.
\<close>

theorem deserialize_malformed:
  "(malformed j \<longrightarrow> (\<exists>e. deserialize j = Inl e)) \<and>
   deserialize (JObj [(''name'', JStr ''x'')]) = Inl (KeyError ''type'')"
proof (intro conjI impI)
  assume "malformed j"
  then show "\<exists>e. deserialize j = Inl e"
    unfolding deserialize_def by (rule malformed_fails)
next
  show "deserialize (JObj [(''name'', JStr ''x'')]) = Inl (KeyError ''type'')"
    by (simp add: deserialize_def)
qed

theorem deserialize_malformed_witness:
  "malformed (JObj [(''name'', JStr ''r''), (''type'', JStr ''directory''),
      (''children'', JArr [JObj [(''name'', JStr ''x''), (''type'', JStr ''folder''),
         (''children'', JNull)]])]) \<and>
   (\<exists>e. deserialize (JObj [(''name'', JStr ''r''), (''type'', JStr ''directory''),
      (''children'', JArr [JObj [(''name'', JStr ''x''), (''type'', JStr ''folder''),
         (''children'', JNull)]])]) = Inl e)"
proof -
  let ?inner = "JObj [(''name'', JStr ''x''), (''type'', JStr ''folder''), (''children'', JNull)]"
  let ?outer = "JObj [(''name'', JStr ''r''), (''type'', JStr ''directory''),
      (''children'', JArr [?inner])]"
  have inner: "malformed ?inner"
  proof (rule malformed.bad_type)
    show "map_of [(''name'', JStr ''x''), (''type'', JStr ''folder''), (''children'', JNull)]
        ''type'' = Some (JStr ''folder'')"
      by simp
  qed simp_all
  have outer: "malformed ?outer"
  proof (rule malformed.nested)
    show "map_of [(''name'', JStr ''r''), (''type'', JStr ''directory''),
        (''children'', JArr [?inner])] ''children'' = Some (JArr [?inner])"
      by simp
    show "?inner \<in> set [?inner]"
      by (rule list.set_intros)
    show "malformed ?inner"
      by (rule inner)
  qed
  from outer deserialize_malformed[of ?outer] show ?thesis
    by (intro conjI) (assumption, blast)
qed

lemma dict_to_node_no_children:
  assumes "map_of node_dict ''children'' = Some cs" "\<not> truthy cs"
  shows "dict_to_node (JObj node_dict) =
     (case map_of node_dict ''name'' of
        None \<Rightarrow> Inl (KeyError ''name'')
      | Some name_val \<Rightarrow>
          (case map_of node_dict ''type'' of
             None \<Rightarrow> Inl (KeyError ''type'')
           | Some type_str \<Rightarrow> FileTreeNode_init name_val type_str None))"
  using assms by (simp split: option.splits)

lemma init_None_children:
  "FileTreeNode_init n ty None = Inr node \<Longrightarrow> children node = []"
  by (cases ty) (auto simp: FileTreeNode_init_def split: if_splits)

lemma node_to_dict_no_empty_array:
  "node_to_dict t = JObj node_dict \<Longrightarrow> map_of node_dict ''children'' \<noteq> Some (JArr [])"
  by (cases t) (auto split: if_splits)

text \<open>
  C10. An empty \<^verbatim>\<open>children\<close> array is decoded exactly like \<^verbatim>\<open>null\<close>: the
  result is the one obtained with \<^verbatim>\<open>null\<close> in its place, a decoded node has no
  children, and a \<^verbatim>\<open>"file"\<close> object with an empty array is accepted.
\<close>

theorem empty_children_like_null:
  assumes "map_of node_dict ''children'' = Some (JArr [])"
  shows "deserialize (JObj node_dict) =
           deserialize (JObj (AList.update ''children'' JNull node_dict)) \<and>
         (deserialize (JObj node_dict) = Inr node \<longrightarrow> children node = []) \<and>
         (map_of node_dict ''name'' = Some n \<and> map_of node_dict ''type'' = Some (JStr ''file'') \<longrightarrow>
            deserialize (JObj node_dict) = Inr (FileTreeNode n ''file'' []))"
proof -
  let ?null = "AList.update ''children'' JNull node_dict"
  have lookups: "map_of ?null ''children'' = Some JNull"
    "map_of ?null ''name'' = map_of node_dict ''name''"
    "map_of ?null ''type'' = map_of node_dict ''type''"
    by (simp_all add: update_conv')
  have here: "dict_to_node (JObj node_dict) =
     (case map_of node_dict ''name'' of
        None \<Rightarrow> Inl (KeyError ''name'')
      | Some name_val \<Rightarrow>
          (case map_of node_dict ''type'' of
             None \<Rightarrow> Inl (KeyError ''type'')
           | Some type_str \<Rightarrow> FileTreeNode_init name_val type_str None))"
    using assms by (intro dict_to_node_no_children[of _ "JArr []"]) simp_all
  have there: "dict_to_node (JObj ?null) =
     (case map_of node_dict ''name'' of
        None \<Rightarrow> Inl (KeyError ''name'')
      | Some name_val \<Rightarrow>
          (case map_of node_dict ''type'' of
             None \<Rightarrow> Inl (KeyError ''type'')
           | Some type_str \<Rightarrow> FileTreeNode_init name_val type_str None))"
    using dict_to_node_no_children[of ?null JNull, OF lookups(1)]
    unfolding lookups(2,3) by simp
  have same: "deserialize (JObj node_dict) = deserialize (JObj ?null)"
    unfolding deserialize_def here there ..
  have empty: "children node = []" if "deserialize (JObj node_dict) = Inr node"
    using that init_None_children unfolding deserialize_def here
    by (auto split: option.splits)
  have is_file: "deserialize (JObj node_dict) = Inr (FileTreeNode n ''file'' [])"
    if "map_of node_dict ''name'' = Some n" "map_of node_dict ''type'' = Some (JStr ''file'')"
    using that unfolding deserialize_def here
    by (simp add: FileTreeNode_init_def)
  from same empty is_file show ?thesis
    by blast
qed

theorem empty_children_like_null_witness:
  "map_of [(''name'', JStr ''x''), (''type'', JStr ''file''), (''children'', JArr [])] ''children'' =
     Some (JArr []) \<and>
   deserialize (JObj [(''name'', JStr ''x''), (''type'', JStr ''file''), (''children'', JArr [])]) =
     Inr (FileTreeNode (JStr ''x'') ''file'' [])"
proof -
  have lookups:
    "map_of [(''name'', JStr ''x''), (''type'', JStr ''file''), (''children'', JArr [])] ''children'' =
       Some (JArr [])"
    "map_of [(''name'', JStr ''x''), (''type'', JStr ''file''), (''children'', JArr [])] ''name'' =
       Some (JStr ''x'')"
    "map_of [(''name'', JStr ''x''), (''type'', JStr ''file''), (''children'', JArr [])] ''type'' =
       Some (JStr ''file'')"
    by simp_all
  from empty_children_like_null[OF lookups(1), of undefined "JStr ''x''"] lookups
  show ?thesis by blast
qed

subsection \<open>The renderer\<close>

lemma insort_key_map:
  "map g (insort_key (\<lambda>a. f (g a)) x xs) = insort_key f (g x) (map g xs)"
  by (induction xs) auto

lemma sort_key_map:
  "map g (sort_key (\<lambda>a. f (g a)) xs) = sort_key f (map g xs)"
  by (induction xs) (simp_all add: insort_key_map)

lemma sorted_tagged:
  "map snd (sort_key (\<lambda>(pos, x). k x) (enumerate 0 cs)) = sort_key k cs"
proof -
  have "(\<lambda>(pos :: nat, x). k x) = (\<lambda>a. k (snd a))"
    by (simp add: fun_eq_iff)
  then show ?thesis
    by (simp add: sort_key_map)
qed

lemma tagged_position:
  assumes "(pos, child) \<in> set (sort_key k (enumerate 0 cs))"
  shows "pos < length cs \<and> child = cs ! pos"
  using assms by (simp add: in_set_enumerate_eq)

lemma fold_update_same:
  assumes "\<And>pos printed child'. (pos, printed, child') \<in> set calls \<Longrightarrow>
     pos < length xs \<and> child' = xs ! pos"
  shows "fold (\<lambda>(pos, printed, child') children. children[pos := child']) calls xs = xs"
  using assms
proof (induction calls)
  case Nil
  then show ?case by simp
next
  case (Cons call calls)
  obtain pos printed child' where call: "call = (pos, printed, child')"
    by (cases call)
  with Cons.prems[of pos printed child'] have same: "xs[pos := child'] = xs"
    by simp
  have "fold (\<lambda>(pos, printed, child') children. children[pos := child']) calls xs = xs"
  proof (rule Cons.IH)
    fix p q r
    assume "(p, q, r) \<in> set calls"
    then show "p < length xs \<and> r = xs ! p"
      using Cons.prems[of p q r] by simp
  qed
  with call same show ?case
    by simp
qed

lemma map_enumerate_nth:
  "map (\<lambda>(i, x). G i x) (enumerate 0 xs) = map (\<lambda>i. G i (xs ! i)) [0..<length xs]"
  by (rule nth_equalityI) (simp_all add: nth_enumerate_eq)

lemma print_tree_unchanged:
  "snd (print_tree str_lower node indent print_hidden is_last_child prefix) = node"
proof (induction str_lower node indent print_hidden is_last_child prefix rule: print_tree.induct)
  case (1 str_lower n t cs indent print_hidden is_last_child prefix)
  show ?case
  proof (cases "\<not> (\<not> print_hidden \<and> startswith n ''.'') \<and> t \<noteq> ''file'' \<and> t = ''directory''")
    case False
    then show ?thesis
      by (auto simp: print_tree.simps Let_def)
  next
    case True
    define new_prefix where "new_prefix = prefix @ (if is_last_child then ''   '' else prefix_bar)"
    define sorted_children where
      "sorted_children = sort_key (\<lambda>(pos, x). sort_key_of str_lower x) (enumerate 0 cs)"
    define calls where "calls = map (\<lambda>(i, (pos, child)).
        (pos, print_tree str_lower child (indent + 1) print_hidden
           (int i = int (length sorted_children) - 1) new_prefix))
      (enumerate 0 sorted_children)"
    have "pos < length cs \<and> child' = cs ! pos" if "(pos, printed, child') \<in> set calls"
      for pos printed child'
    proof -
      from that obtain i child where
        entry: "(i, pos, child) \<in> set (enumerate 0 sorted_children)" and
        call: "(printed, child') = print_tree str_lower child (indent + 1) print_hidden
           (int i = int (length sorted_children) - 1) new_prefix"
        unfolding calls_def by auto
      from entry have "i < length sorted_children" "sorted_children ! i = (pos, child)"
        by (simp_all add: in_set_enumerate_eq)
      with nth_mem[of i sorted_children] have tagged: "(pos, child) \<in> set sorted_children"
        by simp
      then have here: "pos < length cs \<and> child = cs ! pos"
        unfolding sorted_children_def by (rule tagged_position)
      from True entry have "snd (print_tree str_lower child (indent + 1) print_hidden
           (int i = int (length sorted_children) - 1) new_prefix) = child"
        by (intro "1.IH"[OF _ refl _ _ new_prefix_def sorted_children_def entry refl refl]) simp_all
      moreover from call have "child' = snd (print_tree str_lower child (indent + 1) print_hidden
           (int i = int (length sorted_children) - 1) new_prefix)"
        by (simp flip: call)
      ultimately show ?thesis
        using here by simp
    qed
    then have "fold (\<lambda>(pos, printed, child') children. children[pos := child']) calls cs = cs"
      by (rule fold_update_same)
    with True show ?thesis
      by (simp add: print_tree.simps Let_def calls_def sorted_children_def new_prefix_def)
  qed
qed


lemma sort_key_of_nth_mono:
  assumes "i < j" "j < length cs"
  shows "sort_key_of str_lower (sort_key (sort_key_of str_lower) cs ! i) \<le>
         sort_key_of str_lower (sort_key (sort_key_of str_lower) cs ! j)"
proof -
  have "sorted (map (sort_key_of str_lower) (sort_key (sort_key_of str_lower) cs))"
    by (rule sorted_sort_key)
  from sorted_nth_mono[OF this, of i j] assms show ?thesis
    by simp
qed

lemma sorted_keys_of_permutation:
  assumes "mset cs' = mset cs"
  shows "map k (sort_key k cs') = map k (sort_key k cs)"
proof -
  have "map k (sort_key k xs) = sort (map k xs)" for xs
    by (rule properties_for_sort[symmetric]) simp_all
  moreover from assms have "mset (map k cs') = mset (map k cs)"
    by simp
  then have "sort (map k cs') = sort (map k cs)"
    by (intro properties_for_sort) simp_all
  ultimately show ?thesis by simp
qed

lemma calls_lines:
  "concat (map (\<lambda>(pos, printed, child'). printed)
       (map (\<lambda>(i, (pos, child)). (pos, F i child))
          (enumerate 0 (sort_key (\<lambda>(pos, x). k x) (enumerate 0 cs))))) =
   concat (map (\<lambda>i. fst (F i (sort_key k cs ! i))) [0..<length cs])"
proof -
  define tagged where "tagged = sort_key (\<lambda>(pos :: nat, x). k x) (enumerate 0 cs)"
  have shown: "map snd tagged = sort_key k cs"
    unfolding tagged_def by (rule sorted_tagged)
  have len: "length tagged = length cs"
    by (simp add: tagged_def)
  have "map (\<lambda>(pos, printed, child'). printed)
          (map (\<lambda>(i, (pos, child)). (pos, F i child)) (enumerate 0 tagged)) =
        map (\<lambda>(i, tc). fst (F i (snd tc))) (enumerate 0 tagged)"
    by (simp add: split_beta)
  also have "\<dots> = map (\<lambda>i. fst (F i (snd (tagged ! i)))) [0..<length tagged]"
    by (rule map_enumerate_nth)
  also have "\<dots> = map (\<lambda>i. fst (F i (sort_key k cs ! i))) [0..<length cs]"
    using len by (simp flip: shown)
  finally show ?thesis
    unfolding tagged_def by (rule arg_cong)
qed

lemma print_tree_directory_lines:
  "fst (print_tree str_lower (FileTreeNode n ''directory'' cs) indent print_hidden
       is_last_child prefix) =
     (if \<not> print_hidden \<and> startswith n ''.'' then []
      else (prefix @ (if is_last_child then connector_last else connector_mid) @
              icon_directory @ '' '' @ n) #
           concat (map (\<lambda>i.
               fst (print_tree str_lower (sort_key (sort_key_of str_lower) cs ! i) (indent + 1)
                 print_hidden (int i = int (length cs) - 1)
                 (prefix @ (if is_last_child then ''   '' else prefix_bar))))
             [0..<length cs]))"
  unfolding print_tree.simps[of str_lower n "''directory''" cs] Let_def calls_lines
  by simp

lemma print_tree_own_line:
  "fst (print_tree str_lower c indent print_hidden is_last_child prefix) =
     (if \<not> print_hidden \<and> startswith (name c) ''.'' then []
      else if type c = ''file''
        then [prefix @ (if is_last_child then connector_last else connector_mid) @
                icon_file @ '' '' @ name c]
      else if type c = ''directory''
        then (prefix @ (if is_last_child then connector_last else connector_mid) @
                icon_directory @ '' '' @ name c) #
             tl (fst (print_tree str_lower c indent print_hidden is_last_child prefix))
      else [])"
  by (cases c) (simp add: print_tree.simps Let_def)

text \<open>
  C9. For a directory node, \<^verbatim>\<open>print_tree\<close> prints nothing when the node itself is
  hidden, and otherwise its own line followed, one child after the other, by what the
  children print, in the order of \<^verbatim>\<open>sorted(self.children, key=...)\<close>. A child
  prints nothing when it is hidden; a file child prints exactly its own line and a
  directory child starts with its own line, each line made of the prefix, the connector,
  the icon and the name. The order is a permutation of the children, ascending in the
  key \<^verbatim>\<open>(type != "directory", name.lower())\<close>, so every directory child comes before
  every other child and within each group the lowercased names ascend; the keys shown do
  not depend on the storage order. The sorting is for display only: the node after the
  call is the node before it, with its children in their stored order.
\<close>

theorem print_tree_sorted:
  "let shown = sort_key (sort_key_of str_lower) cs;
       new_prefix = prefix @ (if is_last_child then ''   '' else prefix_bar);
       connector = (\<lambda>i. if int i = int (length cs) - 1 then connector_last else connector_mid);
       block = (\<lambda>i. fst (print_tree str_lower (shown ! i) (indent + 1) print_hidden
                  (int i = int (length cs) - 1) new_prefix));
       result = print_tree str_lower (FileTreeNode n ''directory'' cs) indent print_hidden
                  is_last_child prefix
   in
     fst result =
       (if \<not> print_hidden \<and> startswith n ''.'' then []
        else (prefix @ (if is_last_child then connector_last else connector_mid) @
                icon_directory @ '' '' @ n) #
             concat (map block [0..<length cs])) \<and>
     (\<forall>i < length cs.
        block i =
          (if \<not> print_hidden \<and> startswith (name (shown ! i)) ''.'' then []
           else if type (shown ! i) = ''file''
             then [new_prefix @ connector i @ icon_file @ '' '' @ name (shown ! i)]
           else if type (shown ! i) = ''directory''
             then (new_prefix @ connector i @ icon_directory @ '' '' @ name (shown ! i)) #
                  tl (block i)
           else [])) \<and>
     mset shown = mset cs \<and>
     sorted (map (sort_key_of str_lower) shown) \<and>
     (\<forall>i j. i < j \<and> j < length cs \<and> type (shown ! j) = ''directory'' \<longrightarrow>
        type (shown ! i) = ''directory'') \<and>
     (\<forall>i j. i < j \<and> j < length cs \<and>
        (type (shown ! i) = ''directory'') = (type (shown ! j) = ''directory'') \<longrightarrow>
        str_lower (name (shown ! i)) \<le> str_lower (name (shown ! j))) \<and>
     (\<forall>cs'. mset cs' = mset cs \<longrightarrow>
        map (sort_key_of str_lower) (sort_key (sort_key_of str_lower) cs') =
        map (sort_key_of str_lower) shown) \<and>
     snd result = FileTreeNode n ''directory'' cs"
proof -
  define shown where "shown = sort_key (sort_key_of str_lower) cs"
  define new_prefix where "new_prefix = prefix @ (if is_last_child then ''   '' else prefix_bar)"
  define connector where
    "connector = (\<lambda>i. if int i = int (length cs) - 1 then connector_last else connector_mid)"
  define block where
    "block = (\<lambda>i. fst (print_tree str_lower (shown ! i) (indent + 1) print_hidden
                (int i = int (length cs) - 1) new_prefix))"
  define result where
    "result = print_tree str_lower (FileTreeNode n ''directory'' cs) indent print_hidden
                is_last_child prefix"
  have lines: "fst result =
       (if \<not> print_hidden \<and> startswith n ''.'' then []
        else (prefix @ (if is_last_child then connector_last else connector_mid) @
                icon_directory @ '' '' @ n) #
             concat (map block [0..<length cs]))"
    unfolding result_def block_def shown_def new_prefix_def
    by (rule print_tree_directory_lines)
  have blocks: "\<forall>i < length cs. block i =
          (if \<not> print_hidden \<and> startswith (name (shown ! i)) ''.'' then []
           else if type (shown ! i) = ''file''
             then [new_prefix @ connector i @ icon_file @ '' '' @ name (shown ! i)]
           else if type (shown ! i) = ''directory''
             then (new_prefix @ connector i @ icon_directory @ '' '' @ name (shown ! i)) #
                  tl (block i)
           else [])"
    unfolding block_def connector_def
    by (intro allI impI) (rule print_tree_own_line)
  have perm: "mset shown = mset cs"
    by (simp add: shown_def)
  have ordered: "sorted (map (sort_key_of str_lower) shown)"
    unfolding shown_def by (rule sorted_sort_key)
  have dirs_first: "\<forall>i j. i < j \<and> j < length cs \<and> type (shown ! j) = ''directory'' \<longrightarrow>
      type (shown ! i) = ''directory''"
  proof (intro allI impI)
    fix i j
    assume "i < j \<and> j < length cs \<and> type (shown ! j) = ''directory''"
    with sort_key_of_nth_mono[of i j cs str_lower] show "type (shown ! i) = ''directory''"
      by (auto simp: shown_def sort_key_of_def less_eq_prod_def)
  qed
  have within: "\<forall>i j. i < j \<and> j < length cs \<and>
      (type (shown ! i) = ''directory'') = (type (shown ! j) = ''directory'') \<longrightarrow>
      str_lower (name (shown ! i)) \<le> str_lower (name (shown ! j))"
  proof (intro allI impI)
    fix i j
    assume "i < j \<and> j < length cs \<and>
      (type (shown ! i) = ''directory'') = (type (shown ! j) = ''directory'')"
    with sort_key_of_nth_mono[of i j cs str_lower]
    show "str_lower (name (shown ! i)) \<le> str_lower (name (shown ! j))"
      by (auto simp: shown_def sort_key_of_def less_eq_prod_def)
  qed
  have any_order: "\<forall>cs'. mset cs' = mset cs \<longrightarrow>
      map (sort_key_of str_lower) (sort_key (sort_key_of str_lower) cs') =
      map (sort_key_of str_lower) shown"
    unfolding shown_def by (intro allI impI) (rule sorted_keys_of_permutation)
  have unchanged: "snd result = FileTreeNode n ''directory'' cs"
    unfolding result_def by (rule print_tree_unchanged)
  from lines blocks perm ordered dirs_first within any_order unchanged show ?thesis
    unfolding Let_def shown_def new_prefix_def connector_def block_def result_def
    by (intro conjI) assumption+
qed

theorem print_tree_sorted_witness:
  "list_all is_ascii [''b.txt'', ''B'', ''a'', ''A.txt''] \<and>
   print_tree ascii_lower
     (FileTreeNode ''r'' ''directory''
       [FileTreeNode ''b.txt'' ''file'' [], FileTreeNode ''B'' ''directory'' [],
        FileTreeNode ''a'' ''directory'' [], FileTreeNode ''A.txt'' ''file'' []])
     0 False True [] =
   ([connector_last @ icon_directory @ '' r'',
     ''   '' @ connector_mid @ icon_directory @ '' a'',
     ''   '' @ connector_mid @ icon_directory @ '' B'',
     ''   '' @ connector_mid @ icon_file @ '' A.txt'',
     ''   '' @ connector_last @ icon_file @ '' b.txt''],
    FileTreeNode ''r'' ''directory''
       [FileTreeNode ''b.txt'' ''file'' [], FileTreeNode ''B'' ''directory'' [],
        FileTreeNode ''a'' ''directory'' [], FileTreeNode ''A.txt'' ''file'' []]) \<and>
   ((2::nat) < length
       [FileTreeNode ''b.txt'' ''file'' [], FileTreeNode ''B'' ''directory'' [],
        FileTreeNode ''a'' ''directory'' [], FileTreeNode ''A.txt'' ''file'' []] \<and>
    fst (print_tree ascii_lower (FileTreeNode ''A.txt'' ''file'' []) 1 False False ''   '') =
      [''   '' @ connector_mid @ icon_file @ '' A.txt'']) \<and>
   (((0::nat) < 1 \<and> (1::nat) < length
       [FileTreeNode ''b.txt'' ''file'' [], FileTreeNode ''B'' ''directory'' [],
        FileTreeNode ''a'' ''directory'' [], FileTreeNode ''A.txt'' ''file'' []] \<and>
     type (sort_key (sort_key_of ascii_lower)
       [FileTreeNode ''b.txt'' ''file'' [], FileTreeNode ''B'' ''directory'' [],
        FileTreeNode ''a'' ''directory'' [], FileTreeNode ''A.txt'' ''file'' []] ! 1) =
       ''directory'') \<and>
    type (sort_key (sort_key_of ascii_lower)
       [FileTreeNode ''b.txt'' ''file'' [], FileTreeNode ''B'' ''directory'' [],
        FileTreeNode ''a'' ''directory'' [], FileTreeNode ''A.txt'' ''file'' []] ! 0) =
       ''directory'') \<and>
   (mset [FileTreeNode ''a'' ''directory'' [], FileTreeNode ''A.txt'' ''file'' [],
        FileTreeNode ''B'' ''directory'' [], FileTreeNode ''b.txt'' ''file'' []] =
    mset [FileTreeNode ''b.txt'' ''file'' [], FileTreeNode ''B'' ''directory'' [],
        FileTreeNode ''a'' ''directory'' [], FileTreeNode ''A.txt'' ''file'' []] \<and>
    map (sort_key_of ascii_lower) (sort_key (sort_key_of ascii_lower)
       [FileTreeNode ''a'' ''directory'' [], FileTreeNode ''A.txt'' ''file'' [],
        FileTreeNode ''B'' ''directory'' [], FileTreeNode ''b.txt'' ''file'' []]) =
    map (sort_key_of ascii_lower) (sort_key (sort_key_of ascii_lower)
       [FileTreeNode ''b.txt'' ''file'' [], FileTreeNode ''B'' ''directory'' [],
        FileTreeNode ''a'' ''directory'' [], FileTreeNode ''A.txt'' ''file'' []]))"
proof -
  let ?cs = "[FileTreeNode ''b.txt'' ''file'' [], FileTreeNode ''B'' ''directory'' [],
      FileTreeNode ''a'' ''directory'' [], FileTreeNode ''A.txt'' ''file'' []]"
  let ?cs' = "[FileTreeNode ''a'' ''directory'' [], FileTreeNode ''A.txt'' ''file'' [],
      FileTreeNode ''B'' ''directory'' [], FileTreeNode ''b.txt'' ''file'' []]"
  have ascii: "list_all is_ascii [''b.txt'', ''B'', ''a'', ''A.txt'']"
    by code_simp
  have shown: "sort_key (sort_key_of ascii_lower) ?cs =
      [FileTreeNode ''a'' ''directory'' [], FileTreeNode ''B'' ''directory'' [],
       FileTreeNode ''A.txt'' ''file'' [], FileTreeNode ''b.txt'' ''file'' []]"
    by code_simp
  have run: "print_tree ascii_lower (FileTreeNode ''r'' ''directory'' ?cs) 0 False True [] =
   ([connector_last @ icon_directory @ '' r'',
     ''   '' @ connector_mid @ icon_directory @ '' a'',
     ''   '' @ connector_mid @ icon_directory @ '' B'',
     ''   '' @ connector_mid @ icon_file @ '' A.txt'',
     ''   '' @ connector_last @ icon_file @ '' b.txt''],
    FileTreeNode ''r'' ''directory'' ?cs)"
    by code_simp
  note sorted_fact = print_tree_sorted[of ascii_lower ?cs "[]" True 0 False "''r''",
      unfolded Let_def]
  have third: "(2::nat) < length ?cs \<and>
      fst (print_tree ascii_lower (FileTreeNode ''A.txt'' ''file'' []) 1 False False ''   '') =
        [''   '' @ connector_mid @ icon_file @ '' A.txt'']"
    using sorted_fact[unfolded shown, THEN conjunct2, THEN conjunct1, rule_format, of 2]
    by (simp add: startswith_def)
  have second: "(0::nat) < 1 \<and> (1::nat) < length ?cs \<and>
      type (sort_key (sort_key_of ascii_lower) ?cs ! 1) = ''directory''"
    unfolding shown by simp
  from sorted_fact second
  have first: "type (sort_key (sort_key_of ascii_lower) ?cs ! 0) = ''directory''"
    by blast
  have perm: "mset ?cs' = mset ?cs"
    by (simp add: add_mset_commute)
  from sorted_fact perm
  have keys: "map (sort_key_of ascii_lower) (sort_key (sort_key_of ascii_lower) ?cs') =
      map (sort_key_of ascii_lower) (sort_key (sort_key_of ascii_lower) ?cs)"
    by blast
  show ?thesis
    by (rule conjI[OF ascii conjI[OF run conjI[OF third conjI[OF conjI[OF second first]
        conjI[OF perm keys]]]]])
qed


subsection \<open>The scanner\<close>

lemma init_directory:
  "FileTreeNode_init d (JStr ''directory'') None = Inr (FileTreeNode d ''directory'' [])"
  by (simp add: FileTreeNode_init_def)

lemma init_file:
  "FileTreeNode_init f (JStr ''file'') None = Inr (FileTreeNode f ''file'' [])"
  by (simp add: FileTreeNode_init_def)

lemma build_from_directory_fresh:
  "build_from_directory root (FileTreeNode n t []) dir_path add_hidden =
     (if \<not> os_path_isdir root dir_path then Inl (ValueError (not_a_directory_msg dir_path))
      else
        (case os_listdir root dir_path of
           Inl e \<Rightarrow> Inl e
         | Inr listed \<Rightarrow>
        (let listed_items =
               (if \<not> add_hidden then filter (\<lambda>item. \<not> startswith item ''.'') listed
                else listed);
             dirs = filter (\<lambda>item. os_path_isdir root (os_path_join dir_path item)) listed_items;
             files = filter (\<lambda>item. os_path_isfile root (os_path_join dir_path item)) listed_items
         in
        (case collect (map (\<lambda>dir.
                  build_from_directory root (FileTreeNode dir ''directory'' [])
                    (os_path_join dir_path dir) False) dirs) of
           Inl e \<Rightarrow> Inl e
         | Inr scanned \<Rightarrow>
             Inr (FileTreeNode n t (scanned @ map (\<lambda>file. FileTreeNode file ''file'' []) files))))))"
proof -
  have dirs: "collect (map (\<lambda>dir. FileTreeNode_init dir (JStr ''directory'') None) ds) =
      Inr (map (\<lambda>dir. FileTreeNode dir ''directory'' []) ds)" for ds :: "string list"
    by (rule collect_map_Inr) (rule init_directory)
  have files: "collect (map (\<lambda>file. FileTreeNode_init file (JStr ''file'') None) fs) =
      Inr (map (\<lambda>file. FileTreeNode file ''file'' []) fs)" for fs :: "string list"
    by (rule collect_map_Inr) (rule init_file)
  show ?thesis
    by (subst build_from_directory.simps)
      (simp add: dirs files Let_def o_def split: sum.splits cong: sum.case_cong)
qed

lemma build_from_directory_name:
  assumes "build_from_directory root node dir_path add_hidden = Inr result"
  shows "name result = name node \<and> type result = type node"
proof (cases node)
  case (FileTreeNode n t cs)
  with assms show ?thesis
    by (auto simp: build_from_directory.simps[of root n t cs dir_path add_hidden] Let_def
        split: if_splits sum.splits)
qed

text \<open>
  C3. After a successful scan of a node without children, the children are: first one
  directory node for every sub-directory among the listed entries, in listing order, each
  the result of its own scan; then one file node for every regular file among the listed
  entries, in listing order. The names of the children are the listed names in that
  order: nothing is sorted.
\<close>

theorem scan_order:
  assumes "build_from_directory root (FileTreeNode n t []) dir_path add_hidden = Inr result"
  shows "\<exists>listed scanned.
     os_listdir root dir_path = Inr listed \<and>
     (let listed_items =
            (if \<not> add_hidden then filter (\<lambda>item. \<not> startswith item ''.'') listed
             else listed);
          dirs = filter (\<lambda>item. os_path_isdir root (os_path_join dir_path item)) listed_items;
          files = filter (\<lambda>item. os_path_isfile root (os_path_join dir_path item)) listed_items
      in collect (map (\<lambda>dir.
             build_from_directory root (FileTreeNode dir ''directory'' [])
               (os_path_join dir_path dir) False) dirs) = Inr scanned \<and>
         children result = scanned @ map (\<lambda>file. FileTreeNode file ''file'' []) files \<and>
         map name (children result) = dirs @ files \<and>
         map type (children result) =
           map (\<lambda>dir. ''directory'') dirs @ map (\<lambda>file. ''file'') files)"
proof -
  note unfold = build_from_directory_fresh[of root n t dir_path add_hidden]
  from assms have isdir: "os_path_isdir root dir_path"
    by (simp add: unfold split: if_splits)
  from assms isdir obtain listed where listed: "os_listdir root dir_path = Inr listed"
    by (cases "os_listdir root dir_path") (simp_all add: unfold)
  define listed_items where
    "listed_items =
       (if \<not> add_hidden then filter (\<lambda>item. \<not> startswith item ''.'') listed else listed)"
  define dirs where
    "dirs = filter (\<lambda>item. os_path_isdir root (os_path_join dir_path item)) listed_items"
  define files where
    "files = filter (\<lambda>item. os_path_isfile root (os_path_join dir_path item)) listed_items"
  define scan where
    "scan = (\<lambda>dir. build_from_directory root (FileTreeNode dir ''directory'' [])
               (os_path_join dir_path dir) False)"
  from assms isdir listed obtain scanned where
    scanned: "collect (map scan dirs) = Inr scanned" and
    result: "result = FileTreeNode n t (scanned @ map (\<lambda>file. FileTreeNode file ''file'' []) files)"
    by (cases "collect (map scan dirs)")
      (auto simp: unfold Let_def listed_items_def dirs_def files_def scan_def)
  from collect_map_results[OF scanned]
  have each: "list_all2 (\<lambda>dir node. name node = dir \<and> type node = ''directory'') dirs scanned"
    by (rule list_all2_mono) (auto simp: scan_def dest: build_from_directory_name)
  then have names: "map name scanned = dirs"
    and types: "map type scanned = map (\<lambda>dir. ''directory'') dirs"
    by (induction dirs scanned rule: list_all2_induct) auto
  have body: "collect (map scan dirs) = Inr scanned \<and>
      children result = scanned @ map (\<lambda>file. FileTreeNode file ''file'' []) files \<and>
      map name (children result) = dirs @ files \<and>
      map type (children result) =
        map (\<lambda>dir. ''directory'') dirs @ map (\<lambda>file. ''file'') files"
    using scanned names types by (simp add: result o_def)
  from listed body show ?thesis
    unfolding Let_def listed_items_def dirs_def files_def scan_def
    by blast
qed

theorem scan_order_witness:
  "build_from_directory
     (Dir [(''b'', Dir [(''n.txt'', RegFile (Text ''''))]), (''z.txt'', RegFile (Text '''')),
           (''a'', Dir []), (''y.txt'', RegFile (Text ''''))])
     (FileTreeNode ''r'' ''directory'' []) [] False =
   Inr (FileTreeNode ''r'' ''directory''
     [FileTreeNode ''b'' ''directory'' [FileTreeNode ''n.txt'' ''file'' []],
      FileTreeNode ''a'' ''directory'' [],
      FileTreeNode ''z.txt'' ''file'' [], FileTreeNode ''y.txt'' ''file'' []]) \<and>
   (\<exists>listed scanned.
     os_listdir
       (Dir [(''b'', Dir [(''n.txt'', RegFile (Text ''''))]), (''z.txt'', RegFile (Text '''')),
             (''a'', Dir []), (''y.txt'', RegFile (Text ''''))]) [] = Inr listed \<and>
     children (FileTreeNode ''r'' ''directory''
       [FileTreeNode ''b'' ''directory'' [FileTreeNode ''n.txt'' ''file'' []],
        FileTreeNode ''a'' ''directory'' [],
        FileTreeNode ''z.txt'' ''file'' [], FileTreeNode ''y.txt'' ''file'' []]) =
       scanned @ map (\<lambda>file. FileTreeNode file ''file'' [])
         (filter (\<lambda>item. os_path_isfile
             (Dir [(''b'', Dir [(''n.txt'', RegFile (Text ''''))]), (''z.txt'', RegFile (Text '''')),
                   (''a'', Dir []), (''y.txt'', RegFile (Text ''''))]) (os_path_join [] item))
            (filter (\<lambda>item. \<not> startswith item ''.'') listed)))"
proof -
  have run: "build_from_directory
     (Dir [(''b'', Dir [(''n.txt'', RegFile (Text ''''))]), (''z.txt'', RegFile (Text '''')),
           (''a'', Dir []), (''y.txt'', RegFile (Text ''''))])
     (FileTreeNode ''r'' ''directory'' []) [] False =
   Inr (FileTreeNode ''r'' ''directory''
     [FileTreeNode ''b'' ''directory'' [FileTreeNode ''n.txt'' ''file'' []],
      FileTreeNode ''a'' ''directory'' [],
      FileTreeNode ''z.txt'' ''file'' [], FileTreeNode ''y.txt'' ''file'' []])"
    by code_simp
  from scan_order[OF run] run show ?thesis
    unfolding Let_def by simp blast
qed

text \<open>
  C2. The recursive call of the scanner passes no \<^verbatim>\<open>add_hidden\<close>. Scanning, with
  \<^verbatim>\<open>add_hidden=True\<close>, a directory that holds the sub-directory \<^verbatim>\<open>sub\<close> (with
  the file \<^verbatim>\<open>.secret\<close> in it) and the file \<^verbatim>\<open>.top\<close> gives a tree that has
  \<^verbatim>\<open>.top\<close> but in which \<^verbatim>\<open>sub\<close> has no children: below the first level the
  dot-prefixed entry is dropped although the flag is set.
\<close>

theorem scan_hidden_nested:
  "build_from_directory
     (Dir [(''sub'', Dir [(''.secret'', RegFile (Text ''''))]), (''.top'', RegFile (Text ''''))])
     (FileTreeNode ''root'' ''directory'' []) [] True =
   Inr (FileTreeNode ''root'' ''directory''
     [FileTreeNode ''sub'' ''directory'' [], FileTreeNode ''.top'' ''file'' []])"
  by code_simp

subsection \<open>The persistence wrapper and the materializer\<close>

lemma os_makedirs_existing:
  "os_path_exists root p \<Longrightarrow> os_makedirs root p = Inl FileExistsError"
  unfolding os_path_exists_def
  by (induction root p rule: fs_lookup.induct) (auto split: option.splits)

lemma isfile_exists: "os_path_isfile root p \<Longrightarrow> os_path_exists root p"
  by (auto simp: os_path_isfile_def os_path_exists_def split: option.splits)

lemma create_template_copy_overwrite_directory_raises:
  assumes "os_path_exists (fs w)
     (os_path_join (case destination_path of None \<Rightarrow> cwd w | Some d \<Rightarrow> d) n)"
  shows "create_template_copy (FileTreeNode n ''directory'' cs) destination_path True w =
     (Some FileExistsError, w)"
  using os_makedirs_existing[OF assms] by (simp add: Let_def)

text \<open>
  C6. When the target path \<^verbatim>\<open>os.path.join(destination_path, self.name)\<close> exists
  and \<^verbatim>\<open>overwrite\<close> is false, \<^verbatim>\<open>create_template_copy\<close> prints the
  skipping message and returns: no exception, no call for any child, and the file system
  after the call is the file system before it.
\<close>

theorem create_template_copy_skips:
  assumes "os_path_exists (fs w)
     (os_path_join (case destination_path of None \<Rightarrow> cwd w | Some d \<Rightarrow> d) n)"
  shows "create_template_copy (FileTreeNode n t cs) destination_path False w =
     (None, w\<lparr>stdout := stdout w @
        [skipping_msg (os_path_join (case destination_path of None \<Rightarrow> cwd w | Some d \<Rightarrow> d) n)]\<rparr>)"
  using assms by (simp add: Let_def)

theorem create_template_copy_skips_witness:
  "os_path_exists (fs \<lparr>fs = Dir [(''proj'', Dir [(''old.txt'', RegFile (Text ''x''))])],
       cwd = [], stdout = []\<rparr>)
     (os_path_join (case Some [] of None \<Rightarrow> [] | Some d \<Rightarrow> d) ''proj'') \<and>
   create_template_copy
     (FileTreeNode ''proj'' ''directory'' [FileTreeNode ''new.txt'' ''file'' []]) (Some []) False
     \<lparr>fs = Dir [(''proj'', Dir [(''old.txt'', RegFile (Text ''x''))])], cwd = [], stdout = []\<rparr> =
   (None, \<lparr>fs = Dir [(''proj'', Dir [(''old.txt'', RegFile (Text ''x''))])], cwd = [],
      stdout = [skipping_msg [''proj'']]\<rparr>)"
proof -
  have found: "os_path_exists (fs \<lparr>fs = Dir [(''proj'', Dir [(''old.txt'', RegFile (Text ''x''))])],
       cwd = [], stdout = []\<rparr>)
     (os_path_join (case Some [] of None \<Rightarrow>
        cwd \<lparr>fs = Dir [(''proj'', Dir [(''old.txt'', RegFile (Text ''x''))])],
          cwd = [], stdout = []\<rparr> | Some d \<Rightarrow> d) ''proj'')"
    by (simp add: os_path_exists_def os_path_join_def)
  from create_template_copy_skips[OF found, of "''directory''"
      "[FileTreeNode ''new.txt'' ''file'' []]"] found
  show ?thesis
    by (simp add: os_path_join_def)
qed

text \<open>
  C4. With \<^verbatim>\<open>overwrite=True\<close> on a directory node whose target path exists, the
  existence check is passed over and \<^verbatim>\<open>os.makedirs(root_path)\<close> is called
  without \<^verbatim>\<open>exist_ok\<close>: the call raises \<^verbatim>\<open>FileExistsError\<close> and writes
  nothing, here for the existing directory \<^verbatim>\<open>proj\<close>.
\<close>

theorem create_template_copy_overwrite_existing_directory:
  "os_path_exists (Dir [(''proj'', Dir [(''old.txt'', RegFile (Text ''x''))])])
     (os_path_join [] ''proj'') \<and>
   create_template_copy
     (FileTreeNode ''proj'' ''directory'' [FileTreeNode ''new.txt'' ''file'' []]) (Some []) True
     \<lparr>fs = Dir [(''proj'', Dir [(''old.txt'', RegFile (Text ''x''))])], cwd = [], stdout = []\<rparr> =
   (Some FileExistsError,
    \<lparr>fs = Dir [(''proj'', Dir [(''old.txt'', RegFile (Text ''x''))])], cwd = [], stdout = []\<rparr>)"
  by (simp add: os_path_exists_def os_path_join_def Let_def)

text \<open>
  C5, as stated, fails for a path that exists as a directory: the guard of
  \<^verbatim>\<open>save_to_file\<close> also asks \<^verbatim>\<open>os.path.isfile\<close>, so the call goes on to
  \<^verbatim>\<open>open(file_path, "w")\<close>, which raises \<^verbatim>\<open>IsADirectoryError\<close>; nothing is
  printed.
\<close>

theorem save_to_file_existing_directory:
  "os_path_exists (Dir [(''out'', Dir [])]) [''out''] \<and>
   save_to_file (FileTreeNode (JStr ''r'') ''directory'' []) [''out''] False
     \<lparr>fs = Dir [(''out'', Dir [])], cwd = [], stdout = []\<rparr> =
   (Some IsADirectoryError, \<lparr>fs = Dir [(''out'', Dir [])], cwd = [], stdout = []\<rparr>)"
  by (simp add: save_to_file_def os_path_exists_def os_path_isfile_def)

text \<open>
  C5, amended. For a path that exists as a regular file, \<^verbatim>\<open>save_to_file\<close> with
  \<^verbatim>\<open>overwrite\<close> false writes nothing, prints the already-exists message and
  returns without an exception; the file system is unchanged.
\<close>

theorem save_to_file_skips_existing_file:
  assumes "os_path_exists (fs w) file_path" "os_path_isfile (fs w) file_path"
  shows "save_to_file self file_path False w =
     (None, w\<lparr>stdout := stdout w @ [already_exists_msg file_path]\<rparr>)"
  using assms by (simp add: save_to_file_def)

theorem save_to_file_skips_existing_file_witness:
  "os_path_exists (fs \<lparr>fs = Dir [(''tree.json'', RegFile (Text ''old''))], cwd = [], stdout = []\<rparr>)
     [''tree.json''] \<and>
   os_path_isfile (fs \<lparr>fs = Dir [(''tree.json'', RegFile (Text ''old''))], cwd = [], stdout = []\<rparr>)
     [''tree.json''] \<and>
   save_to_file (FileTreeNode (JStr ''r'') ''directory'' []) [''tree.json''] False
     \<lparr>fs = Dir [(''tree.json'', RegFile (Text ''old''))], cwd = [], stdout = []\<rparr> =
   (None, \<lparr>fs = Dir [(''tree.json'', RegFile (Text ''old''))], cwd = [],
      stdout = [already_exists_msg [''tree.json'']]\<rparr>)"
proof -
  have found: "os_path_exists
      (fs \<lparr>fs = Dir [(''tree.json'', RegFile (Text ''old''))], cwd = [], stdout = []\<rparr>)
      [''tree.json'']"
    and regular: "os_path_isfile
      (fs \<lparr>fs = Dir [(''tree.json'', RegFile (Text ''old''))], cwd = [], stdout = []\<rparr>)
      [''tree.json'']"
    by (simp_all add: os_path_exists_def os_path_isfile_def)
  from save_to_file_skips_existing_file[OF found regular,
      of "FileTreeNode (JStr ''r'') ''directory'' []"] found regular
  show ?thesis by simp
qed

end
